theory Spec2Isabelle
  imports Complex_Main
begin

section \<open>Runtime library: arrays, strings, insertion-ordered maps\<close>

text \<open>
  \<^verbatim>\<open>Array.prototype.sort(cmp)\<close> is a stable comparison sort (ECMAScript 2019 and later):
  an element ends in front of another one when the comparator gives a negative number,
  and elements that compare equal keep the order they had. For a comparator that is
  consistent, as the two comparators of this program are on integers, that fixes the
  result, whatever algorithm the engine runs. The model computes it by insertion from the
  right: an element is put in front of the first one it does not compare greater than,
  so it stays in front of the equal elements that followed it.
\<close>

fun insert_by :: "('a \<Rightarrow> 'a \<Rightarrow> int) \<Rightarrow> 'a \<Rightarrow> 'a list \<Rightarrow> 'a list" where
  "insert_by cmp a [] = [a]"
| "insert_by cmp a (b # bs) =
     (if cmp a b \<le> 0 then a # b # bs else b # insert_by cmp a bs)"

fun Array_sort :: "('a \<Rightarrow> 'a \<Rightarrow> int) \<Rightarrow> 'a list \<Rightarrow> 'a list" where
  "Array_sort cmp [] = []"
| "Array_sort cmp (a # as) = insert_by cmp a (Array_sort cmp as)"

text \<open>
  \<^verbatim>\<open>String.prototype.trim\<close> drops the white space and the line terminators of ECMAScript
  at both ends: U+0009, U+000A, U+000B, U+000C, U+000D, U+0020, U+00A0, U+1680, U+2000 to
  U+200A, U+2028, U+2029, U+202F, U+205F, U+3000 and U+FEFF. A string is the sequence of
  the bytes of its UTF-8 encoding here, so each of these code points is a sequence of one
  to three bytes.
\<close>

definition WhiteSpace :: "string list" where
  "WhiteSpace =
     [[CHR 0x09], [CHR 0x0A], [CHR 0x0B], [CHR 0x0C], [CHR 0x0D], [CHR 0x20],
      [CHR 0xC2, CHR 0xA0],
      [CHR 0xE1, CHR 0x9A, CHR 0x80],
      [CHR 0xE2, CHR 0x80, CHR 0x80], [CHR 0xE2, CHR 0x80, CHR 0x81],
      [CHR 0xE2, CHR 0x80, CHR 0x82], [CHR 0xE2, CHR 0x80, CHR 0x83],
      [CHR 0xE2, CHR 0x80, CHR 0x84], [CHR 0xE2, CHR 0x80, CHR 0x85],
      [CHR 0xE2, CHR 0x80, CHR 0x86], [CHR 0xE2, CHR 0x80, CHR 0x87],
      [CHR 0xE2, CHR 0x80, CHR 0x88], [CHR 0xE2, CHR 0x80, CHR 0x89],
      [CHR 0xE2, CHR 0x80, CHR 0x8A],
      [CHR 0xE2, CHR 0x80, CHR 0xA8], [CHR 0xE2, CHR 0x80, CHR 0xA9],
      [CHR 0xE2, CHR 0x80, CHR 0xAF],
      [CHR 0xE2, CHR 0x81, CHR 0x9F],
      [CHR 0xE3, CHR 0x80, CHR 0x80],
      [CHR 0xEF, CHR 0xBB, CHR 0xBF]]"

text \<open>
  The number of bytes of the sequence of \<open>ws\<close> that the string starts with, 0 when it
  starts with none; \<open>dropLeading\<close> removes such sequences as long as there is one.
\<close>

definition leadingLength :: "string list \<Rightarrow> string \<Rightarrow> nat" where
  "leadingLength ws s =
     (case find (\<lambda>w. take (length w) s = w) ws of None \<Rightarrow> 0 | Some w \<Rightarrow> length w)"

function dropLeading :: "string list \<Rightarrow> string \<Rightarrow> string" where
  "dropLeading ws s =
     (if leadingLength ws s = 0 then s else dropLeading ws (drop (leadingLength ws s) s))"
  by pat_completeness auto
termination
proof (relation "measure (\<lambda>(ws, s). length s)")
  show "wf (measure (\<lambda>(ws, s). length s))"
    by simp
next
  fix ws :: "string list" and s :: string
  assume pos: "leadingLength ws s \<noteq> 0"
  have "s \<noteq> []"
  proof
    assume "s = []"
    then have "leadingLength ws s = 0"
      by (auto simp: leadingLength_def find_Some_iff split: option.splits)
    with pos show False by simp
  qed
  with pos show "((ws, drop (leadingLength ws s) s), (ws, s)) \<in> measure (\<lambda>(ws, s). length s)"
    by simp
qed

declare dropLeading.simps [simp del]

text \<open>At the end of the string the same sequences are looked for from the back.\<close>

definition trim :: "string \<Rightarrow> string" where
  "trim s = rev (dropLeading (map rev WhiteSpace) (rev (dropLeading WhiteSpace s)))"

text \<open>
  \<^verbatim>\<open>filter(Boolean)\<close> on values of type \<^verbatim>\<open>string | null\<close> keeps the non-empty strings;
  \<^verbatim>\<open>join\<close> writes a \<^verbatim>\<open>null\<close> element as the empty string.
\<close>

definition Boolean_str :: "string option \<Rightarrow> bool" where
  "Boolean_str v = (case v of None \<Rightarrow> False | Some s \<Rightarrow> s \<noteq> [])"

fun join :: "string \<Rightarrow> string option list \<Rightarrow> string" where
  "join sep [] = []"
| "join sep [v] = (case v of None \<Rightarrow> [] | Some s \<Rightarrow> s)"
| "join sep (v # w # vs) = (case v of None \<Rightarrow> [] | Some s \<Rightarrow> s) @ sep @ join sep (w # vs)"

text \<open>\<^verbatim>\<open>Number.prototype.toString\<close> on an integer: its decimal digits.\<close>

definition digit_char :: "nat \<Rightarrow> char" where
  "digit_char n = char_of (48 + n)"

function toString_nat :: "nat \<Rightarrow> string" where
  "toString_nat n =
     (if n < 10 then [digit_char n] else toString_nat (n div 10) @ [digit_char (n mod 10)])"
  by pat_completeness auto
termination
  by (relation "measure (\<lambda>n. n)") auto

declare toString_nat.simps [simp del]

definition toString :: "int \<Rightarrow> string" where
  "toString i = (if i < 0 then CHR ''-'' # toString_nat (nat (- i)) else toString_nat (nat i))"

text \<open>
  A JavaScript \<^verbatim>\<open>Map\<close> keeps its keys in the order of their first insertion; \<^verbatim>\<open>set\<close> on a
  key that is present replaces the value where it stands. The model is an association
  list.
\<close>

fun Map_set :: "'k \<Rightarrow> 'v \<Rightarrow> ('k \<times> 'v) list \<Rightarrow> ('k \<times> 'v) list" where
  "Map_set k v [] = [(k, v)]"
| "Map_set k v (e # es) = (if fst e = k then (k, v) # es else e # Map_set k v es)"

definition Map_values :: "('k \<times> 'v) list \<Rightarrow> 'v list" where
  "Map_values m = map snd m"

text \<open>Thrown values, and what the code writes to the alert layer and to the console.\<close>

datatype error = SyntaxError | TypeError | StorageError | LocationError | MediaLibraryError

datatype event = Alert string string | ConsoleError string | ConsoleLog string

text \<open>
  \<^verbatim>\<open>Promise.all\<close>: the results in order when every promise is fulfilled, the first rejection
  otherwise.
\<close>

fun Promise_all :: "(error + 'a) list \<Rightarrow> error + 'a list" where
  "Promise_all [] = Inr []"
| "Promise_all (p # ps) =
     (case p of
        Inl e \<Rightarrow> Inl e
      | Inr v \<Rightarrow> (case Promise_all ps of Inl e \<Rightarrow> Inl e | Inr vs \<Rightarrow> Inr (v # vs)))"


section \<open>The memories screen\<close>

subsection \<open>Data\<close>

record Location =
  latitude :: real
  longitude :: real
  address :: "string option"

text \<open>
  The interface \<^verbatim>\<open>LocationMemory\<close>; its field \<^verbatim>\<open>id\<close> is \<open>id_m\<close> here. The timestamp is a
  reading of \<^verbatim>\<open>Date.now()\<close>, a whole number of milliseconds.
\<close>

record LocationMemory =
  id_m :: string
  title :: string
  description :: string
  emoji :: string
  photoUri :: "string option"
  location :: Location
  timestamp :: int

text \<open>The default emoji of the form, U+1F4CD, as its UTF-8 bytes.\<close>

definition pin_emoji :: string where
  "pin_emoji = [CHR 0xF0, CHR 0x9F, CHR 0x93, CHR 0x8D]"

text \<open>
  The value under the key \<^verbatim>\<open>locationMemories\<close>. A stored text is the empty string, a text
  that \<^verbatim>\<open>JSON.parse\<close> rejects, or the serialisation of a value; a parsed value is an array
  of memory records or something that has no \<^verbatim>\<open>sort\<close> method to call (\<^verbatim>\<open>null\<close>, a number,
  an object). \<^verbatim>\<open>JSON.stringify\<close> of an array of records followed by \<^verbatim>\<open>JSON.parse\<close> gives the
  records back, field for field, in the same order.
\<close>

datatype json = JsonArray "LocationMemory list" | JsonOther

datatype blob = EmptyString | Malformed | Text json

definition JSON_stringify :: "LocationMemory list \<Rightarrow> blob" where
  "JSON_stringify ms = Text (JsonArray ms)"

fun JSON_parse :: "blob \<Rightarrow> error + json" where
  "JSON_parse (Text j) = Inr j"
| "JSON_parse EmptyString = Inl SyntaxError"
| "JSON_parse Malformed = Inl SyntaxError"

definition truthy :: "blob \<Rightarrow> bool" where
  "truthy b = (b \<noteq> EmptyString)"

text \<open>The comparator of both sorts of the screen: \<^verbatim>\<open>(a, b) => b.timestamp - a.timestamp\<close>.\<close>

definition byTimestampDesc :: "LocationMemory \<Rightarrow> LocationMemory \<Rightarrow> int" where
  "byTimestampDesc a b = timestamp b - timestamp a"

fun parsed_sort :: "json \<Rightarrow> error + LocationMemory list" where
  "parsed_sort (JsonArray ms) = Inr (Array_sort byTimestampDesc ms)"
| "parsed_sort JsonOther = Inl TypeError"

text \<open>
  The state of the component (\<^verbatim>\<open>useState\<close>) together with the entry of the key-value
  storage it reads and writes. The form fields \<^verbatim>\<open>title\<close> and \<^verbatim>\<open>description\<close> are
  \<open>form_title\<close> and \<open>form_description\<close> here.
\<close>

record screen =
  memories :: "LocationMemory list"
  modalVisible :: bool
  loading :: bool
  form_title :: string
  form_description :: string
  selectedEmoji :: string
  capturedPhoto :: "string option"
  stored :: "blob option"

definition initial :: "blob option \<Rightarrow> screen" where
  "initial b = \<lparr>memories = [], modalVisible = False, loading = False, form_title = [],
     form_description = [], selectedEmoji = pin_emoji, capturedPhoto = None, stored = b\<rparr>"

text \<open>
  What the device answers during one call of \<^verbatim>\<open>createMemory\<close>: the permission request,
  the position fix, the reverse geocoding, the two readings of \<^verbatim>\<open>Date.now()\<close> and whether
  the storage accepts the write.
\<close>

record coords =
  coords_latitude :: real
  coords_longitude :: real

record geocoded =
  street :: "string option"
  city :: "string option"
  region :: "string option"

record device =
  requestForegroundPermissionsAsync :: "error + string"
  getCurrentPositionAsync :: "error + coords"
  reverseGeocodeAsync :: "error + geocoded list"
  now_id :: int
  now_timestamp :: int
  setItem_ok :: bool

subsection \<open>Operations\<close>

text \<open>
  \<^verbatim>\<open>loadMemories\<close>: the argument says whether \<^verbatim>\<open>AsyncStorage.getItem\<close> answers or throws.
  Everything thrown inside the \<^verbatim>\<open>try\<close> ends in the \<^verbatim>\<open>catch\<close>, which logs.
\<close>

definition loadMemories_try :: "bool \<Rightarrow> screen \<Rightarrow> error + screen" where
  "loadMemories_try getItem_ok s =
     (if \<not> getItem_ok then Inl StorageError
      else case stored s of
        None \<Rightarrow> Inr s
      | Some b \<Rightarrow>
          if truthy b then
            (case JSON_parse b of
               Inl e \<Rightarrow> Inl e
             | Inr parsed \<Rightarrow>
                 (case parsed_sort parsed of
                    Inl e \<Rightarrow> Inl e
                  | Inr sorted_ms \<Rightarrow> Inr (s\<lparr>memories := sorted_ms\<rparr>)))
          else Inr s)"

definition loadMemories :: "bool \<Rightarrow> screen \<Rightarrow> event list \<times> screen" where
  "loadMemories getItem_ok s =
     (case loadMemories_try getItem_ok s of
        Inl e \<Rightarrow> ([ConsoleError ''Error loading memories:''], s)
      | Inr s' \<Rightarrow> ([], s'))"

text \<open>
  \<^verbatim>\<open>saveMemories\<close>: the list is serialised and written as it is handed in; only then is it
  sorted and published. The argument says whether \<^verbatim>\<open>AsyncStorage.setItem\<close> succeeds.
\<close>

definition saveMemories :: "bool \<Rightarrow> LocationMemory list \<Rightarrow> screen \<Rightarrow> event list \<times> screen" where
  "saveMemories write_ok newMemories s =
     (if write_ok then
        ([], s\<lparr>stored := Some (JSON_stringify newMemories),
               memories := Array_sort byTimestampDesc newMemories\<rparr>)
      else
        ([ConsoleError ''Error saving memories:'', Alert ''Error'' ''Failed to save memory''], s))"

definition formatAddress :: "geocoded \<Rightarrow> string" where
  "formatAddress addr = join '', '' (filter Boolean_str [street addr, city addr, region addr])"

definition getCurrentLocation :: "device \<Rightarrow> event list \<times> Location option" where
  "getCurrentLocation d =
     (let failed = ([ConsoleError ''Error getting location:'',
                     Alert ''Error'' ''Could not get current location''], None)
      in case requestForegroundPermissionsAsync d of
        Inl e \<Rightarrow> failed
      | Inr status \<Rightarrow>
          if status \<noteq> ''granted'' then
            ([Alert ''Permission needed''
                ''Location permission is required to save memories with location.''], None)
          else
            (case getCurrentPositionAsync d of
               Inl e \<Rightarrow> failed
             | Inr c \<Rightarrow>
                 (let (evs, addr) =
                        (case reverseGeocodeAsync d of
                           Inl e \<Rightarrow> ([ConsoleLog ''Error getting address:''], [])
                         | Inr reverseGeocode \<Rightarrow>
                             (case reverseGeocode of
                                [] \<Rightarrow> ([], [])
                              | a # _ \<Rightarrow> ([], formatAddress a)))
                  in (evs, Some \<lparr>latitude = coords_latitude c,
                                  longitude = coords_longitude c,
                                  address = Some addr\<rparr>))))"

text \<open>The object literal of \<^verbatim>\<open>createMemory\<close>; \<^verbatim>\<open>photoUri || undefined\<close> drops an empty reference.\<close>

definition newMemory :: "device \<Rightarrow> screen \<Rightarrow> Location \<Rightarrow> LocationMemory" where
  "newMemory d s loc =
     \<lparr>id_m = toString (now_id d),
      title = trim (form_title s),
      description = trim (form_description s),
      emoji = selectedEmoji s,
      photoUri = (case capturedPhoto s of None \<Rightarrow> None
                  | Some u \<Rightarrow> if u = [] then None else Some u),
      location = loc,
      timestamp = now_timestamp d\<rparr>"

text \<open>
  \<^verbatim>\<open>createMemory\<close>. Neither \<^verbatim>\<open>getCurrentLocation\<close> nor \<^verbatim>\<open>saveMemories\<close> throws, so the
  \<^verbatim>\<open>catch\<close> of its own \<^verbatim>\<open>try\<close> is never entered; the \<^verbatim>\<open>finally\<close> clears \<^verbatim>\<open>loading\<close>.
\<close>

definition createMemory :: "device \<Rightarrow> screen \<Rightarrow> event list \<times> screen" where
  "createMemory d s =
     (if trim (form_title s) = [] then
        ([Alert ''Required'' ''Please enter a title for your memory''], s)
      else
        (let s1 = s\<lparr>loading := True\<rparr>;
             (evs1, loc_opt) = getCurrentLocation d
         in case loc_opt of
           None \<Rightarrow> (evs1, s1\<lparr>loading := False\<rparr>)
         | Some loc \<Rightarrow>
             (let updatedMemories = newMemory d s loc # memories s;
                  (evs2, s2) = saveMemories (setItem_ok d) updatedMemories s1;
                  s3 = s2\<lparr>form_title := [], form_description := [],
                          selectedEmoji := pin_emoji, capturedPhoto := None,
                          modalVisible := False\<rparr>
              in (evs1 @ evs2 @ [Alert ''Success!'' ''Memory saved successfully!''],
                  s3\<lparr>loading := False\<rparr>))))"

text \<open>
  \<^verbatim>\<open>deleteMemory\<close> asks for confirmation; the handler of the \<^verbatim>\<open>Delete\<close> button filters the
  collection and saves what is left.
\<close>

definition deleteMemory_onPress :: "bool \<Rightarrow> string \<Rightarrow> screen \<Rightarrow> event list \<times> screen" where
  "deleteMemory_onPress write_ok i s =
     (let updatedMemories = filter (\<lambda>m. id_m m \<noteq> i) (memories s)
      in saveMemories write_ok updatedMemories s)"

datatype button = Cancel | Delete

definition deleteMemory :: "button \<Rightarrow> bool \<Rightarrow> string \<Rightarrow> screen \<Rightarrow> event list \<times> screen" where
  "deleteMemory pressed write_ok i s =
     (let (evs, s') = (case pressed of
                         Cancel \<Rightarrow> ([], s)
                       | Delete \<Rightarrow> deleteMemory_onPress write_ok i s)
      in (Alert ''Delete Memory'' ''Are you sure you want to delete this memory?'' # evs, s'))"

text \<open>
  What can happen to the screen, one step at a time: the user edits the form, the
  component loads, a list is saved, a memory is created, a deletion is confirmed or
  cancelled.
\<close>

datatype action =
    EditForm string string string "string option"
  | OpenModal
  | Load bool
  | Save bool "LocationMemory list"
  | Create device
  | Remove button bool string

fun step :: "action \<Rightarrow> screen \<Rightarrow> event list \<times> screen" where
  "step (EditForm t d e p) s =
     ([], s\<lparr>form_title := t, form_description := d, selectedEmoji := e, capturedPhoto := p\<rparr>)"
| "step OpenModal s = ([], s\<lparr>modalVisible := True\<rparr>)"
| "step (Load getItem_ok) s = loadMemories getItem_ok s"
| "step (Save write_ok ms) s = saveMemories write_ok ms s"
| "step (Create d) s = createMemory d s"
| "step (Remove pressed write_ok i) s = deleteMemory pressed write_ok i s"

fun run :: "action list \<Rightarrow> screen \<Rightarrow> event list \<times> screen" where
  "run [] s = ([], s)"
| "run (a # as) s =
     (let (evs1, s1) = step a s; (evs2, s2) = run as s1 in (evs1 @ evs2, s2))"

text \<open>
  Reverse-chronological order, for a list of records and for what is persisted: the
  stored text is the serialisation of a list in that order.
\<close>

definition sorted_desc :: "LocationMemory list \<Rightarrow> bool" where
  "sorted_desc ms = sorted_wrt (\<lambda>a b. timestamp b \<le> timestamp a) ms"

fun persisted_sorted :: "blob option \<Rightarrow> bool" where
  "persisted_sorted (Some (Text (JsonArray ms))) = sorted_desc ms"
| "persisted_sorted _ = False"


section \<open>The gallery\<close>

record Asset =
  asset_id :: string
  asset_uri :: string
  asset_creationTime :: int
  asset_filename :: string

record AssetInfo =
  info_localUri :: "string option"

record Photo =
  id_p :: string
  uri :: string
  creationTime :: int
  filename :: string
  localUri :: "string option"

text \<open>
  The state of the gallery component, and what the media library answers during one call
  of \<^verbatim>\<open>loadPhotos\<close>: the permission, the album lookup, the two queries (each one page of
  at most 50 assets) and the asset information of each asset.
\<close>

record gallery =
  photos :: "Photo list"
  gallery_loading :: bool
  selectedPhoto :: "Photo option"
  gallery_modalVisible :: bool

record medialib =
  permission_granted :: bool
  requestPermission :: "error + string"
  getAlbumAsync :: "error + string option"
  getAssetsAsync_album :: "error + Asset list"
  getAssetsAsync_recent :: "error + Asset list"
  getAssetInfoAsync :: "Asset \<Rightarrow> error + AssetInfo"

text \<open>
  \<^verbatim>\<open>getPhotoInfo\<close>: \<^verbatim>\<open>assetInfo.localUri || asset.uri\<close> takes the asset's own URI when the
  local one is missing or empty; the \<^verbatim>\<open>catch\<close> logs and builds the photo from the asset
  alone.
\<close>

definition getPhotoInfo :: "medialib \<Rightarrow> Asset \<Rightarrow> event list \<times> (error + Photo)" where
  "getPhotoInfo lib asset =
     (case getAssetInfoAsync lib asset of
        Inr assetInfo \<Rightarrow>
          ([], Inr \<lparr>id_p = asset_id asset,
                     uri = (case info_localUri assetInfo of
                              None \<Rightarrow> asset_uri asset
                            | Some u \<Rightarrow> if u = [] then asset_uri asset else u),
                     creationTime = asset_creationTime asset,
                     filename = asset_filename asset,
                     localUri = info_localUri assetInfo\<rparr>)
      | Inl e \<Rightarrow>
          ([ConsoleLog ''Error getting asset info for''],
           Inr \<lparr>id_p = asset_id asset,
                uri = asset_uri asset,
                creationTime = asset_creationTime asset,
                filename = asset_filename asset,
                localUri = None\<rparr>))"

text \<open>\<^verbatim>\<open>Promise.all(assets.map(asset => getPhotoInfo(asset)))\<close>.\<close>

definition getPhotoInfos :: "medialib \<Rightarrow> Asset list \<Rightarrow> event list \<times> (error + Photo list)" where
  "getPhotoInfos lib assets =
     (concat (map (\<lambda>a. fst (getPhotoInfo lib a)) assets),
      Promise_all (map (\<lambda>a. snd (getPhotoInfo lib a)) assets))"

text \<open>The merge of \<^verbatim>\<open>loadPhotos\<close>: one map keyed by id, filled in list order, then sorted.\<close>

definition byCreationTimeDesc :: "Photo \<Rightarrow> Photo \<Rightarrow> int" where
  "byCreationTimeDesc a b = creationTime b - creationTime a"

definition mergePhotos :: "Photo list \<Rightarrow> Photo list \<Rightarrow> Photo list" where
  "mergePhotos allPhotos recentPhotos =
     (let photoMap = fold (\<lambda>photo m. Map_set (id_p photo) photo m) (allPhotos @ recentPhotos) []
      in Array_sort byCreationTimeDesc (Map_values photoMap))"

text \<open>
  The album part of \<^verbatim>\<open>loadPhotos\<close> has a \<^verbatim>\<open>try\<close> of its own: whatever fails there is logged
  and the album contributes nothing.
\<close>

definition albumPhotos :: "medialib \<Rightarrow> event list \<times> Photo list" where
  "albumPhotos lib =
     (let failed = ([ConsoleLog ''No custom album found or error accessing it:''], [])
      in case getAlbumAsync lib of
        Inl e \<Rightarrow> failed
      | Inr None \<Rightarrow> ([], [])
      | Inr (Some album) \<Rightarrow>
          (case getAssetsAsync_album lib of
             Inl e \<Rightarrow> failed
           | Inr assets \<Rightarrow>
               (case getPhotoInfos lib assets of
                  (evs, Inl e) \<Rightarrow> (evs @ fst failed, [])
                | (evs, Inr ps) \<Rightarrow> (evs, ps))))"

definition loadPhotos_granted :: "medialib \<Rightarrow> gallery \<Rightarrow> event list \<times> gallery" where
  "loadPhotos_granted lib g =
     (let g1 = g\<lparr>gallery_loading := True\<rparr>;
          (evsA, allPhotos) = albumPhotos lib;
          failed = [ConsoleError ''Error loading photos:'',
                    Alert ''Error'' ''Failed to load photos. Please try again.'']
      in case getAssetsAsync_recent lib of
        Inl e \<Rightarrow> (evsA @ failed, g1\<lparr>gallery_loading := False\<rparr>)
      | Inr assets \<Rightarrow>
          (case getPhotoInfos lib assets of
             (evs, Inl e) \<Rightarrow> (evsA @ evs @ failed, g1\<lparr>gallery_loading := False\<rparr>)
           | (evs, Inr recentPhotos) \<Rightarrow>
               (evsA @ evs,
                g1\<lparr>photos := mergePhotos allPhotos recentPhotos, gallery_loading := False\<rparr>)))"

text \<open>
  \<^verbatim>\<open>loadPhotos\<close>: the permission request stands outside the \<^verbatim>\<open>try\<close>, so a request that
  throws rejects the whole call.
\<close>

definition loadPhotos :: "medialib \<Rightarrow> gallery \<Rightarrow> error + event list \<times> gallery" where
  "loadPhotos lib g =
     (if \<not> permission_granted lib then
        (case requestPermission lib of
           Inl e \<Rightarrow> Inl e
         | Inr status \<Rightarrow>
             if status \<noteq> ''granted'' then
               Inr ([Alert ''Permission needed''
                       ''We need access to your photo library to view photos.''], g)
             else Inr (loadPhotos_granted lib g))
      else Inr (loadPhotos_granted lib g))"

text \<open>
  The map of the merge after the photos \<open>ps\<close> have been written into a map \<open>m\<close>; the
  merge starts from the empty map.
\<close>

definition photoMap_fill :: "Photo list \<Rightarrow> (string \<times> Photo) list \<Rightarrow> (string \<times> Photo) list" where
  "photoMap_fill ps m = fold (\<lambda>photo m. Map_set (id_p photo) photo m) ps m"


section \<open>Concrete inputs\<close>

text \<open>
  A record and a device as in the scenario of the specification (title \<^verbatim>\<open>Coffee\<close>, location
  40, -73, no photo), parameterised by identifier and clock; the state \<open>backdated\<close> is
  reached by creating one memory at time 2000 and a second one after the clock has been
  set back to 1000.
\<close>

definition example_memory :: "string \<Rightarrow> int \<Rightarrow> LocationMemory" where
  "example_memory i t =
     \<lparr>id_m = i, title = ''Coffee'', description = [], emoji = pin_emoji, photoUri = None,
      location = \<lparr>latitude = 40, longitude = - 73, address = Some []\<rparr>, timestamp = t\<rparr>"

definition example_device :: "int \<Rightarrow> device" where
  "example_device t =
     \<lparr>requestForegroundPermissionsAsync = Inr ''granted'',
      getCurrentPositionAsync = Inr \<lparr>coords_latitude = 40, coords_longitude = - 73\<rparr>,
      reverseGeocodeAsync = Inr [],
      now_id = t, now_timestamp = t, setItem_ok = True\<rparr>"

text \<open>
  A title of white space only: a space, U+00A0, U+3000, U+2028, U+FEFF and a tab.
\<close>

definition blank_title :: string where
  "blank_title =
     [CHR 0x20, CHR 0xC2, CHR 0xA0, CHR 0xE3, CHR 0x80, CHR 0x80, CHR 0xE2, CHR 0x80, CHR 0xA8,
      CHR 0xEF, CHR 0xBB, CHR 0xBF, CHR 0x09]"

definition composing :: "string \<Rightarrow> screen" where
  "composing t = (initial None)\<lparr>form_title := t, modalVisible := True\<rparr>"

definition backdated :: screen where
  "backdated =
     snd (run [EditForm ''Coffee'' [] pin_emoji None, Create (example_device 2000),
               EditForm ''Tea'' [] pin_emoji None, Create (example_device 1000)]
              (initial None))"

definition example_photo :: "string \<Rightarrow> int \<Rightarrow> string \<Rightarrow> Photo" where
  "example_photo i t u =
     \<lparr>id_p = i, uri = u, creationTime = t, filename = i @ ''.jpg'', localUri = None\<rparr>"

definition example_asset :: "string \<Rightarrow> int \<Rightarrow> Asset" where
  "example_asset i t =
     \<lparr>asset_id = i, asset_uri = ''ph://'' @ i, asset_creationTime = t,
      asset_filename = i @ ''.jpg''\<rparr>"

text \<open>A media library where the asset information of \<^verbatim>\<open>x\<close> cannot be resolved.\<close>

definition example_medialib :: medialib where
  "example_medialib =
     \<lparr>permission_granted = True, requestPermission = Inr ''granted'',
      getAlbumAsync = Inr None, getAssetsAsync_album = Inr [],
      getAssetsAsync_recent = Inr [example_asset ''x'' 1, example_asset ''y'' 2],
      getAssetInfoAsync =
        (\<lambda>a. if asset_id a = ''x'' then Inl MediaLibraryError
              else Inr \<lparr>info_localUri = Some (''file:///'' @ asset_id a)\<rparr>)\<rparr>"

text \<open>
  The same library with the album present: the album holds \<^verbatim>\<open>w\<close> and \<^verbatim>\<open>x\<close>, and the asset
  information of \<^verbatim>\<open>w\<close> cannot be resolved either.
\<close>

definition example_medialib_album :: medialib where
  "example_medialib_album =
     \<lparr>permission_granted = True, requestPermission = Inr ''granted'',
      getAlbumAsync = Inr (Some ''Camera App Photos''),
      getAssetsAsync_album = Inr [example_asset ''w'' 3, example_asset ''x'' 1],
      getAssetsAsync_recent = Inr [example_asset ''x'' 1, example_asset ''y'' 2],
      getAssetInfoAsync =
        (\<lambda>a. if asset_id a = ''x'' \<or> asset_id a = ''w'' then Inl MediaLibraryError
              else Inr \<lparr>info_localUri = Some (''file:///'' @ asset_id a)\<rparr>)\<rparr>"

definition empty_gallery :: gallery where
  "empty_gallery =
     \<lparr>photos = [], gallery_loading = False, selectedPhoto = None, gallery_modalVisible = False\<rparr>"


section \<open>The sort\<close>

text \<open>
  With a comparator that subtracts keys, the sort is the library's stable insertion sort
  on the negated key; order, stability and the elements follow from there.
\<close>

lemma insert_by_insort_key:
  "insert_by (\<lambda>a b. k b - k a) x ys = insort_key (\<lambda>a. - k a) x ys"
  by (induction ys) auto

lemma Array_sort_sort_key:
  "Array_sort (\<lambda>a b. k b - k a) xs = sort_key (\<lambda>a. - k a) xs"
  by (induction xs) (auto simp: insert_by_insort_key)

lemma sortMemories_sort_key:
  "Array_sort byTimestampDesc ms = sort_key (\<lambda>m. - timestamp m) ms"
proof -
  have eq: "byTimestampDesc = (\<lambda>a b. timestamp b - timestamp a)"
    by (auto simp: byTimestampDesc_def fun_eq_iff)
  show ?thesis unfolding eq by (rule Array_sort_sort_key)
qed

lemma sortPhotos_sort_key:
  "Array_sort byCreationTimeDesc ps = sort_key (\<lambda>p. - creationTime p) ps"
proof -
  have eq: "byCreationTimeDesc = (\<lambda>a b. creationTime b - creationTime a)"
    by (auto simp: byCreationTimeDesc_def fun_eq_iff)
  show ?thesis unfolding eq by (rule Array_sort_sort_key)
qed

lemma sorted_desc_map: "sorted_desc ms = sorted (map (\<lambda>m. - timestamp m) ms)"
  by (simp add: sorted_desc_def sorted_map)

lemma sorted_desc_sort: "sorted_desc (Array_sort byTimestampDesc ms)"
  by (simp add: sorted_desc_map sortMemories_sort_key)

lemma sort_sorted_desc: "sorted_desc ms \<Longrightarrow> Array_sort byTimestampDesc ms = ms"
  by (simp add: sorted_desc_map sortMemories_sort_key sort_key_id_if_sorted)

lemma set_sortMemories: "set (Array_sort byTimestampDesc ms) = set ms"
  by (simp add: sortMemories_sort_key)

lemma sort_stable:
  "filter (\<lambda>m. timestamp m = t) (Array_sort byTimestampDesc ms)
     = filter (\<lambda>m. timestamp m = t) ms"
proof -
  have "filter (\<lambda>m. - timestamp m = - t) (sort_key (\<lambda>m. - timestamp m) ms)
      = filter (\<lambda>m. - timestamp m = - t) ms"
    by (rule sort_key_stable)
  then show ?thesis by (simp add: sortMemories_sort_key)
qed


section \<open>The record store\<close>

subsection \<open>Order of the in-memory collection\<close>

lemma load_sorted:
  "sorted_desc (memories s) \<Longrightarrow> sorted_desc (memories (snd (loadMemories ok s)))"
  by (auto simp: loadMemories_def loadMemories_try_def sorted_desc_sort
      split: option.splits sum.splits elim!: parsed_sort.elims)

lemma save_sorted:
  "sorted_desc (memories s) \<Longrightarrow> sorted_desc (memories (snd (saveMemories ok ms s)))"
  by (simp add: saveMemories_def sorted_desc_sort)

lemma create_sorted:
  "sorted_desc (memories s) \<Longrightarrow> sorted_desc (memories (snd (createMemory d s)))"
  by (auto simp: createMemory_def Let_def saveMemories_def sorted_desc_sort
      simp del: Array_sort.simps split: prod.splits option.splits)

lemma delete_sorted:
  "sorted_desc (memories s) \<Longrightarrow> sorted_desc (memories (snd (deleteMemory p ok i s)))"
  by (auto simp: deleteMemory_def deleteMemory_onPress_def Let_def saveMemories_def
      sorted_desc_sort split: prod.splits button.splits)

lemma step_sorted:
  "sorted_desc (memories s) \<Longrightarrow> sorted_desc (memories (snd (step a s)))"
  by (cases a) (simp_all add: load_sorted save_sorted create_sorted delete_sorted)

lemma run_sorted:
  "sorted_desc (memories s) \<Longrightarrow> sorted_desc (memories (snd (run as s)))"
proof (induction as arbitrary: s)
  case Nil
  then show ?case by simp
next
  case (Cons a as)
  from Cons.prems have "sorted_desc (memories (snd (step a s)))"
    by (rule step_sorted)
  then have "sorted_desc (memories (snd (run as (snd (step a s)))))"
    by (rule Cons.IH)
  then show ?case by (simp add: split_beta Let_def)
qed

text \<open>
  C1, as the code has it: after every sequence of edits, loads, saves, creations and
  deletions that starts from the initial screen, whatever the storage held, the in-memory
  collection is in reverse-chronological order; after a successful save of any list it
  is so from any state. The persisted collection is the list exactly as it was handed to
  \<^verbatim>\<open>saveMemories\<close>, so it is in reverse-chronological order if and only if that list is;
  a load leaves the storage entry as it is.
\<close>

theorem memory_sorted_persisted_as_given:
  "sorted_desc (memories (snd (run acts (initial b))))
   \<and> sorted_desc (memories (snd (saveMemories True ms s)))
   \<and> stored (snd (saveMemories True ms s)) = Some (JSON_stringify ms)
   \<and> persisted_sorted (stored (snd (saveMemories True ms s))) = sorted_desc ms
   \<and> stored (snd (loadMemories getItem_ok s)) = stored s"
proof -
  have "sorted_desc (memories (initial b))"
    by (simp add: initial_def sorted_desc_def)
  then have "sorted_desc (memories (snd (run acts (initial b))))"
    by (rule run_sorted)
  moreover have "stored (snd (loadMemories getItem_ok s)) = stored s"
    by (auto simp: loadMemories_def loadMemories_try_def
        simp del: Array_sort.simps split: option.splits sum.splits)
  ultimately show ?thesis
    by (simp add: saveMemories_def sorted_desc_sort JSON_stringify_def del: Array_sort.simps)
qed

text \<open>
  C1 as stated fails: saving the list with timestamps 1, 2 (not yet sorted) persists it
  in that order, which is not reverse-chronological.
\<close>

theorem save_persists_unsorted_counterexample:
  "\<not> persisted_sorted (stored (snd (saveMemories True
        [example_memory ''1'' 1, example_memory ''2'' 2] (initial None))))"
  by (simp add: saveMemories_def JSON_stringify_def sorted_desc_def example_memory_def)

subsection \<open>A failed write\<close>

text \<open>
  C2: when the write of \<^verbatim>\<open>saveMemories\<close> fails, the state is returned as it was (the
  in-memory collection and the storage entry included), the call ends normally, and the
  alert \<^verbatim>\<open>Failed to save memory\<close> is raised. The same holds for the collection and the
  storage entry when the failing save is the one of \<^verbatim>\<open>createMemory\<close> or \<^verbatim>\<open>deleteMemory\<close>.
\<close>

theorem save_failure_keeps_memory:
  "saveMemories False ms s =
     ([ConsoleError ''Error saving memories:'', Alert ''Error'' ''Failed to save memory''], s)
   \<and> memories (snd (createMemory (d\<lparr>setItem_ok := False\<rparr>) s)) = memories s
   \<and> stored (snd (createMemory (d\<lparr>setItem_ok := False\<rparr>) s)) = stored s
   \<and> memories (snd (deleteMemory pressed False i s)) = memories s
   \<and> stored (snd (deleteMemory pressed False i s)) = stored s"
  by (auto simp: saveMemories_def createMemory_def deleteMemory_def deleteMemory_onPress_def
      Let_def split: prod.splits option.splits button.splits)

subsection \<open>Saving, then loading\<close>

lemma load_after_save:
  "loadMemories True (snd (saveMemories True ms s)) = ([], snd (saveMemories True ms s))"
  by (simp add: loadMemories_def loadMemories_try_def saveMemories_def JSON_stringify_def
      truthy_def del: Array_sort.simps)

lemma run_loads_after_save:
  "snd (run (replicate n (Load True)) (snd (saveMemories True ms s)))
     = snd (saveMemories True ms s)"
  by (induction n) (simp_all add: load_after_save)

text \<open>
  A load that can read the storage publishes the sorted list that the stored text
  serialises, whatever the screen held before.
\<close>

lemma load_publishes_persisted:
  "loadMemories True (s\<lparr>stored := Some (JSON_stringify ms)\<rparr>)
     = ([], s\<lparr>stored := Some (JSON_stringify ms), memories := Array_sort byTimestampDesc ms\<rparr>)"
  by (simp add: loadMemories_def loadMemories_try_def JSON_stringify_def truthy_def
      del: Array_sort.simps)

lemma initial_sorted: "sorted_desc (memories (initial b))"
  by (simp add: initial_def sorted_desc_def)

text \<open>
  C3: a load right after a successful save of any list changes nothing: the in-memory
  sequence is the one the save published, the sorted list (also when the storage cannot
  be read, since the load then keeps what is in memory). And from a state whose
  collection is in order, load, save what was loaded, load again: the save republishes
  the loaded sequence, persists it, and the second load reproduces it. The load reads
  what the save persisted: any screen on the storage entry that the save wrote, whatever
  its collection was, publishes by a load the sequence that the save published, and so
  does a screen that has just been mounted with an empty collection; mounting, saving
  what was loaded and mounting again gives the same sequence.
\<close>

theorem save_then_load_roundtrip:
  "loadMemories True (snd (saveMemories True ms s)) = ([], snd (saveMemories True ms s))
   \<and> memories (snd (loadMemories ok (snd (saveMemories True ms s))))
       = Array_sort byTimestampDesc ms
   \<and> (sorted_desc (memories s) \<longrightarrow>
        (let s1 = snd (loadMemories ok s);
             s2 = snd (saveMemories True (memories s1) s1);
             s3 = snd (loadMemories True s2)
         in memories s2 = memories s1 \<and> memories s3 = memories s1
            \<and> stored s2 = Some (JSON_stringify (memories s1))))
   \<and> loadMemories True (s'\<lparr>stored := stored (snd (saveMemories True ms s))\<rparr>)
       = ([], s'\<lparr>stored := Some (JSON_stringify ms),
                  memories := memories (snd (saveMemories True ms s))\<rparr>)
   \<and> memories (snd (loadMemories True (initial (stored (snd (saveMemories True ms s))))))
       = memories (snd (saveMemories True ms s))
   \<and> (let s1 = snd (loadMemories True (initial b));
            s2 = snd (saveMemories True (memories s1) s1);
            s3 = snd (loadMemories True (initial (stored s2)))
        in memories s3 = memories s1)"
proof -
  have a: "loadMemories True (snd (saveMemories True ms s)) = ([], snd (saveMemories True ms s))"
    by (rule load_after_save)
  have b: "memories (snd (loadMemories ok (snd (saveMemories True ms s))))
      = Array_sort byTimestampDesc ms"
    by (simp add: loadMemories_def loadMemories_try_def saveMemories_def JSON_stringify_def
        truthy_def del: Array_sort.simps)
  have c: "let s1 = snd (loadMemories ok s);
               s2 = snd (saveMemories True (memories s1) s1);
               s3 = snd (loadMemories True s2)
           in memories s2 = memories s1 \<and> memories s3 = memories s1
              \<and> stored s2 = Some (JSON_stringify (memories s1))"
    if "sorted_desc (memories s)"
  proof -
    define s1 where "s1 = snd (loadMemories ok s)"
    have "sorted_desc (memories s1)"
      unfolding s1_def using that by (rule load_sorted)
    then have "Array_sort byTimestampDesc (memories s1) = memories s1"
      by (rule sort_sorted_desc)
    then have "memories (snd (saveMemories True (memories s1) s1)) = memories s1"
      and "stored (snd (saveMemories True (memories s1) s1)) = Some (JSON_stringify (memories s1))"
      by (simp_all add: saveMemories_def del: Array_sort.simps)
    then show ?thesis
      by (simp add: Let_def load_after_save flip: s1_def)
  qed
  have st: "stored (snd (saveMemories True ms s)) = Some (JSON_stringify ms)"
    and mem: "memories (snd (saveMemories True ms s)) = Array_sort byTimestampDesc ms"
    by (simp_all add: saveMemories_def del: Array_sort.simps)
  have d: "loadMemories True (s'\<lparr>stored := stored (snd (saveMemories True ms s))\<rparr>)
       = ([], s'\<lparr>stored := Some (JSON_stringify ms),
                  memories := memories (snd (saveMemories True ms s))\<rparr>)"
    by (simp only: st mem load_publishes_persisted)
  have fresh: "memories (snd (loadMemories True (initial (Some (JSON_stringify xs)))))
      = Array_sort byTimestampDesc xs" for xs
    using load_publishes_persisted [where s = "initial None" and ms = xs]
    by (simp add: initial_def del: Array_sort.simps)
  have e: "memories (snd (loadMemories True (initial (stored (snd (saveMemories True ms s))))))
       = memories (snd (saveMemories True ms s))"
    by (simp only: st mem fresh)
  have f: "let s1 = snd (loadMemories True (initial b));
            s2 = snd (saveMemories True (memories s1) s1);
            s3 = snd (loadMemories True (initial (stored s2)))
        in memories s3 = memories s1"
  proof -
    define s1 where "s1 = snd (loadMemories True (initial b))"
    have "sorted_desc (memories s1)"
      unfolding s1_def using initial_sorted by (rule load_sorted)
    then have srt: "Array_sort byTimestampDesc (memories s1) = memories s1"
      by (rule sort_sorted_desc)
    have "stored (snd (saveMemories True (memories s1) s1)) = Some (JSON_stringify (memories s1))"
      by (simp add: saveMemories_def del: Array_sort.simps)
    then have "memories (snd (loadMemories True
                 (initial (stored (snd (saveMemories True (memories s1) s1)))))) = memories s1"
      by (simp only: fresh srt)
    then show ?thesis
      by (simp add: Let_def flip: s1_def)
  qed
  from a b c d e f show ?thesis by simp
qed

text \<open>
  The round trip at a state that holds two records: the list with timestamps 1, 2 was
  saved, so the collection is in order, and load, save, load reproduces it. A screen
  that has just been mounted on the storage entry of that save holds no record and
  loads the two records in the order 2, 1.
\<close>

theorem save_then_load_roundtrip_witness:
  "sorted_desc (memories (snd (saveMemories True
       [example_memory ''1'' 1, example_memory ''2'' 2] (initial None))))
   \<and> memories (snd (loadMemories True (snd (saveMemories True
       [example_memory ''1'' 1, example_memory ''2'' 2] (initial None)))))
     = [example_memory ''2'' 2, example_memory ''1'' 1]
   \<and> (let s1 = snd (loadMemories True (snd (saveMemories True
                  [example_memory ''1'' 1, example_memory ''2'' 2] (initial None))));
           s2 = snd (saveMemories True (memories s1) s1);
           s3 = snd (loadMemories True s2)
       in memories s2 = memories s1 \<and> memories s3 = memories s1
          \<and> stored s2 = Some (JSON_stringify (memories s1)))
   \<and> memories (initial (Some (JSON_stringify
         [example_memory ''1'' 1, example_memory ''2'' 2]))) = []
   \<and> memories (snd (loadMemories True (initial (Some (JSON_stringify
         [example_memory ''1'' 1, example_memory ''2'' 2])))))
     = [example_memory ''2'' 2, example_memory ''1'' 1]"
proof -
  have srt: "sorted_desc (memories (snd (saveMemories True
       [example_memory ''1'' 1, example_memory ''2'' 2] (initial None))))"
    by (simp add: saveMemories_def sorted_desc_def example_memory_def byTimestampDesc_def)
  have val: "Array_sort byTimestampDesc [example_memory ''1'' 1, example_memory ''2'' 2]
      = [example_memory ''2'' 2, example_memory ''1'' 1]"
    by (simp add: example_memory_def byTimestampDesc_def)
  have mem: "memories (snd (saveMemories True
       [example_memory ''1'' 1, example_memory ''2'' 2] (initial None)))
      = [example_memory ''2'' 2, example_memory ''1'' 1]"
    by (simp add: saveMemories_def val del: Array_sort.simps)
  have st: "stored (snd (saveMemories True
       [example_memory ''1'' 1, example_memory ''2'' 2] (initial None)))
      = Some (JSON_stringify [example_memory ''1'' 1, example_memory ''2'' 2])"
    by (simp add: saveMemories_def del: Array_sort.simps)
  have emp: "memories (initial (Some (JSON_stringify
         [example_memory ''1'' 1, example_memory ''2'' 2]))) = []"
    by (simp add: initial_def)
  from srt mem st emp
    save_then_load_roundtrip [where ms = "[example_memory ''1'' 1, example_memory ''2'' 2]"
      and s = "initial None" and ok = True and s' = "initial None" and b = None]
    save_then_load_roundtrip [where ms = "[]"
      and s = "snd (saveMemories True [example_memory ''1'' 1, example_memory ''2'' 2]
                 (initial None))"
      and ok = True and s' = "initial None" and b = None]
  show ?thesis by (simp del: Array_sort.simps)
qed

subsection \<open>Loading a blob that cannot be read\<close>

text \<open>
  C5: \<^verbatim>\<open>loadMemories\<close> always ends normally. When the stored text is not empty and
  \<^verbatim>\<open>JSON.parse\<close> rejects it, the state comes back as it was, the in-memory collection
  included (the empty one if nothing had been loaded), and the only effect is the line
  on the error console; no alert is raised. Whatever the storage holds and whether or
  not it can be read, a load either leaves the state as it was or publishes the sorted
  array that the stored text serialises.
\<close>

theorem load_fails_soft:
  "(stored s = Some b \<and> truthy b \<and> JSON_parse b = Inl e \<longrightarrow>
      loadMemories getItem_ok s = ([ConsoleError ''Error loading memories:''], s))
   \<and> (snd (loadMemories getItem_ok s) = s
        \<or> (\<exists>ms. stored s = Some (Text (JsonArray ms))
              \<and> loadMemories getItem_ok s
                  = ([], s\<lparr>memories := Array_sort byTimestampDesc ms\<rparr>)))"
  by (auto simp: loadMemories_def loadMemories_try_def truthy_def
      simp del: Array_sort.simps split: option.splits sum.splits
      elim!: parsed_sort.elims JSON_parse.elims)

text \<open>
  A screen that holds one record while the storage holds a text that does not parse: the
  load logs and the record is still there.
\<close>

theorem load_fails_soft_witness:
  "stored ((initial (Some Malformed))\<lparr>memories := [example_memory ''7'' 7]\<rparr>) = Some Malformed
   \<and> truthy Malformed
   \<and> JSON_parse Malformed = Inl SyntaxError
   \<and> loadMemories True ((initial (Some Malformed))\<lparr>memories := [example_memory ''7'' 7]\<rparr>)
       = ([ConsoleError ''Error loading memories:''],
          (initial (Some Malformed))\<lparr>memories := [example_memory ''7'' 7]\<rparr>)"
  using load_fails_soft [of "(initial (Some Malformed))\<lparr>memories := [example_memory ''7'' 7]\<rparr>"
      Malformed SyntaxError True]
  by (simp add: initial_def truthy_def)

subsection \<open>The composer\<close>

text \<open>
  A string made of white space and line terminators only is trimmed to the empty string.
\<close>

lemma leadingLength_WhiteSpace:
  "w \<in> set WhiteSpace \<Longrightarrow> leadingLength WhiteSpace (w @ rest) = length w"
  unfolding WhiteSpace_def leadingLength_def
  by (elim insertE emptyE | simp only: set_simps)+ simp_all

lemma dropLeading_WhiteSpace_only:
  "set ws \<subseteq> set WhiteSpace \<Longrightarrow>
     dropLeading WhiteSpace (concat ws @ rest) = dropLeading WhiteSpace rest"
proof (induction ws)
  case Nil
  then show ?case by simp
next
  case (Cons w ws)
  then have w: "w \<in> set WhiteSpace" and ws: "set ws \<subseteq> set WhiteSpace"
    by simp_all
  from w have n: "leadingLength WhiteSpace (w @ concat ws @ rest) = length w"
    by (rule leadingLength_WhiteSpace)
  from w have "w \<noteq> []"
    by (auto simp: WhiteSpace_def)
  with n have "dropLeading WhiteSpace (w @ concat ws @ rest)
      = dropLeading WhiteSpace (concat ws @ rest)"
    by (subst dropLeading.simps) simp
  with Cons.IH [OF ws] show ?case by simp
qed

lemma leadingLength_Nil: "leadingLength ws [] = 0"
  by (auto simp: leadingLength_def find_Some_iff split: option.splits)

lemma dropLeading_Nil: "dropLeading ws [] = []"
  by (subst dropLeading.simps) (simp add: leadingLength_Nil)

lemma trim_WhiteSpace_only: "set ws \<subseteq> set WhiteSpace \<Longrightarrow> trim (concat ws) = []"
proof -
  assume "set ws \<subseteq> set WhiteSpace"
  from dropLeading_WhiteSpace_only [OF this, of "[]"]
  have "dropLeading WhiteSpace (concat ws) = []"
    by (simp add: dropLeading_Nil)
  then show ?thesis
    by (simp add: trim_def dropLeading_Nil)
qed

text \<open>
  C6: when the trimmed title is empty, as it is for the empty title and for every title
  made of white space and line terminators only, \<^verbatim>\<open>createMemory\<close> raises the alert
  \<^verbatim>\<open>Required\<close> and returns the state as it was: nothing is asked of the device (the
  result is the same for every device), nothing is saved, the collection and the storage
  entry are unchanged, the modal stays as it is and the form keeps its fields. A second
  attempt gives the same alert and the same state.
\<close>

theorem blank_title_rejected:
  "trim (form_title s) = [] \<or> (\<exists>ws. set ws \<subseteq> set WhiteSpace \<and> form_title s = concat ws) \<Longrightarrow>
     createMemory d s = ([Alert ''Required'' ''Please enter a title for your memory''], s)
     \<and> createMemory d' s = createMemory d s
     \<and> createMemory d' (snd (createMemory d s)) = createMemory d s"
proof -
  assume "trim (form_title s) = []
    \<or> (\<exists>ws. set ws \<subseteq> set WhiteSpace \<and> form_title s = concat ws)"
  then have "trim (form_title s) = []"
    using trim_WhiteSpace_only by auto
  then show ?thesis
    by (simp add: createMemory_def)
qed

text \<open>
  The composer is open with a title of a space, U+00A0, U+3000, U+2028, U+FEFF and a
  tab: the attempt is rejected, nothing is stored, the modal is still open and the title
  is still there. The same holds for a title of two spaces.
\<close>

theorem blank_title_rejected_witness:
  "trim (form_title (composing blank_title)) = []
   \<and> createMemory (example_device 5) (composing blank_title)
       = ([Alert ''Required'' ''Please enter a title for your memory''], composing blank_title)
   \<and> memories (snd (createMemory (example_device 5) (composing blank_title))) = []
   \<and> stored (snd (createMemory (example_device 5) (composing blank_title))) = None
   \<and> modalVisible (snd (createMemory (example_device 5) (composing blank_title)))
   \<and> form_title (snd (createMemory (example_device 5) (composing blank_title))) = blank_title
   \<and> trim (form_title (composing ''  '')) = []
   \<and> createMemory (example_device 5) (composing ''  '')
       = ([Alert ''Required'' ''Please enter a title for your memory''], composing ''  '')"
proof -
  have t: "trim (form_title (composing blank_title)) = []"
    by code_simp
  have u: "trim (form_title (composing ''  '')) = []"
    by code_simp
  from t u
    blank_title_rejected [of "composing blank_title" "example_device 5"]
    blank_title_rejected [of "composing ''  ''" "example_device 5"]
  show ?thesis
    by (simp add: composing_def initial_def)
qed

subsection \<open>Stability\<close>

text \<open>
  C7: the sort by descending timestamp is stable: for every list and every timestamp,
  the records with that timestamp stand in the sorted list in the order they had in the
  input. The same holds for the in-memory collection after a successful save of the list
  followed by any number of loads.
\<close>

theorem timestamp_sort_stable:
  "filter (\<lambda>m. timestamp m = t) (Array_sort byTimestampDesc ms)
     = filter (\<lambda>m. timestamp m = t) ms
   \<and> filter (\<lambda>m. timestamp m = t)
        (memories (snd (run (Save True ms # replicate n (Load True)) s)))
     = filter (\<lambda>m. timestamp m = t) ms"
proof -
  have "memories (snd (run (Save True ms # replicate n (Load True)) s))
      = Array_sort byTimestampDesc ms"
    by (simp add: split_beta run_loads_after_save) (simp add: saveMemories_def del: Array_sort.simps)
  then show ?thesis by (simp add: sort_stable del: Array_sort.simps)
qed

subsection \<open>Deleting an identifier that is not there\<close>

text \<open>
  C8 as stated fails. After a memory created at time 2000 and a second one created with
  the clock set back to 1000, the storage holds the two records in the order 1000, 2000
  and the collection holds them in the order 2000, 1000. Deleting an identifier that no
  record has rewrites the storage entry in the order of the collection: the persisted
  contents are not what they were. And on a screen that has not loaded yet, while the
  storage holds one record, the same deletion overwrites the storage entry with the
  empty list.
\<close>

theorem remove_absent_changes_persisted_counterexample:
  "''nope'' \<notin> id_m ` set (memories backdated)
   \<and> stored backdated
       = Some (JSON_stringify [(example_memory ''1000'' 1000)\<lparr>title := ''Tea''\<rparr>,
                               example_memory ''2000'' 2000])
   \<and> stored (snd (deleteMemory Delete True ''nope'' backdated))
       = Some (JSON_stringify [example_memory ''2000'' 2000,
                               (example_memory ''1000'' 1000)\<lparr>title := ''Tea''\<rparr>])
   \<and> stored (snd (deleteMemory Delete True ''nope'' backdated)) \<noteq> stored backdated
   \<and> ''nope'' \<notin> id_m ` set (memories (initial (Some (JSON_stringify [example_memory ''7'' 7]))))
   \<and> stored (snd (deleteMemory Delete True ''nope''
               (initial (Some (JSON_stringify [example_memory ''7'' 7])))))
       = Some (JSON_stringify [])"
  by code_simp

text \<open>
  C8, as the code has it: in a state whose collection is in reverse-chronological order,
  confirming the deletion of an identifier that no record has leaves the in-memory
  collection as it is and ends normally. The storage entry is rewritten with the
  serialisation of the in-memory collection, so the whole state is unchanged when the
  entry already was that serialisation. When the write fails the state is unchanged and
  the alert \<^verbatim>\<open>Failed to save memory\<close> is raised.
\<close>

theorem remove_absent_rewrites_store:
  "i \<notin> id_m ` set (memories s) \<Longrightarrow> sorted_desc (memories s) \<Longrightarrow>
     memories (snd (deleteMemory_onPress ok i s)) = memories s
     \<and> stored (snd (deleteMemory_onPress True i s)) = Some (JSON_stringify (memories s))
     \<and> (stored s = Some (JSON_stringify (memories s)) \<longrightarrow>
          deleteMemory_onPress True i s = ([], s))
     \<and> deleteMemory_onPress False i s =
         ([ConsoleError ''Error saving memories:'', Alert ''Error'' ''Failed to save memory''], s)"
proof -
  assume absent: "i \<notin> id_m ` set (memories s)" and srt: "sorted_desc (memories s)"
  from absent have f: "filter (\<lambda>m. id_m m \<noteq> i) (memories s) = memories s"
    by (auto simp: filter_id_conv)
  from srt have g: "Array_sort byTimestampDesc (memories s) = memories s"
    by (rule sort_sorted_desc)
  show ?thesis
    by (simp add: deleteMemory_onPress_def saveMemories_def Let_def f g del: Array_sort.simps)
qed

text \<open>
  After one record has been saved, the storage entry is the serialisation of the
  collection, and deleting an identifier that is not there changes nothing.
\<close>

theorem remove_absent_rewrites_store_witness:
  "''nope'' \<notin> id_m ` set (memories (snd (saveMemories True [example_memory ''7'' 7] (initial None))))
   \<and> sorted_desc (memories (snd (saveMemories True [example_memory ''7'' 7] (initial None))))
   \<and> stored (snd (saveMemories True [example_memory ''7'' 7] (initial None)))
       = Some (JSON_stringify (memories (snd (saveMemories True [example_memory ''7'' 7] (initial None)))))
   \<and> deleteMemory_onPress True ''nope'' (snd (saveMemories True [example_memory ''7'' 7] (initial None)))
       = ([], snd (saveMemories True [example_memory ''7'' 7] (initial None)))"
  using remove_absent_rewrites_store [of "''nope''"
      "snd (saveMemories True [example_memory ''7'' 7] (initial None))" True]
  by (simp add: saveMemories_def example_memory_def sorted_desc_def initial_def)

subsection \<open>The address of a created memory\<close>

lemma getCurrentLocation_address:
  "getCurrentLocation d = (evs, Some loc) \<Longrightarrow> \<exists>a. address loc = Some a"
  by (auto simp: getCurrentLocation_def Let_def
      split: sum.splits if_splits list.splits prod.splits)

lemma getCurrentLocation_empty:
  "getCurrentLocation d = (evs, Some loc) \<Longrightarrow>
   (\<exists>e. reverseGeocodeAsync d = Inl e) \<or> reverseGeocodeAsync d = Inr []
     \<or> (\<exists>a rest. reverseGeocodeAsync d = Inr (a # rest)
          \<and> \<not> Boolean_str (street a) \<and> \<not> Boolean_str (city a) \<and> \<not> Boolean_str (region a)) \<Longrightarrow>
   address loc = Some []"
  by (auto simp: getCurrentLocation_def Let_def formatAddress_def
      split: sum.splits if_splits list.splits prod.splits)

lemma createMemory_new:
  "m \<in> set (memories (snd (createMemory d s))) \<Longrightarrow> m \<notin> set (memories s) \<Longrightarrow>
     \<exists>evs loc. getCurrentLocation d = (evs, Some loc) \<and> m = newMemory d s loc"
  by (auto simp: createMemory_def Let_def saveMemories_def set_sortMemories
      simp del: Array_sort.simps split: if_splits prod.splits option.splits)

text \<open>
  C10: every record that \<^verbatim>\<open>createMemory\<close> adds to the collection has an address that is
  present. When the title is not blank, the write succeeds and the location is acquired,
  the record built from the form is in the collection, its address is a string, and that
  string is empty when reverse geocoding fails, returns no result, or returns a first
  result whose street, city and region are all missing or empty.
\<close>

theorem created_memory_address_is_string:
  "(\<forall>m \<in> set (memories (snd (createMemory d s))) - set (memories s).
       \<exists>a. address (location m) = Some a)
   \<and> (trim (form_title s) \<noteq> [] \<and> setItem_ok d \<and> getCurrentLocation d = (evs, Some loc) \<longrightarrow>
        newMemory d s loc \<in> set (memories (snd (createMemory d s)))
        \<and> (\<exists>a. address (location (newMemory d s loc)) = Some a)
        \<and> ((\<exists>e. reverseGeocodeAsync d = Inl e) \<or> reverseGeocodeAsync d = Inr []
             \<or> (\<exists>a rest. reverseGeocodeAsync d = Inr (a # rest)
                  \<and> \<not> Boolean_str (street a) \<and> \<not> Boolean_str (city a)
                  \<and> \<not> Boolean_str (region a))
            \<longrightarrow> address (location (newMemory d s loc)) = Some []))"
proof -
  have a: "\<exists>a. address (location m) = Some a"
    if "m \<in> set (memories (snd (createMemory d s))) - set (memories s)" for m
  proof -
    from that obtain evs' loc'
      where "getCurrentLocation d = (evs', Some loc')" "m = newMemory d s loc'"
      using createMemory_new by blast
    then show ?thesis
      using getCurrentLocation_address by (simp add: newMemory_def)
  qed
  have b: "newMemory d s loc \<in> set (memories (snd (createMemory d s)))"
    if "trim (form_title s) \<noteq> []" "setItem_ok d" "getCurrentLocation d = (evs, Some loc)"
    using that
    by (simp add: createMemory_def Let_def saveMemories_def set_sortMemories
        del: Array_sort.simps)
  have c: "\<exists>a. address (location (newMemory d s loc)) = Some a"
    if "getCurrentLocation d = (evs, Some loc)"
    using getCurrentLocation_address [OF that] by (simp add: newMemory_def)
  have e: "address (location (newMemory d s loc)) = Some []"
    if "getCurrentLocation d = (evs, Some loc)"
       "(\<exists>e. reverseGeocodeAsync d = Inl e) \<or> reverseGeocodeAsync d = Inr []
             \<or> (\<exists>a rest. reverseGeocodeAsync d = Inr (a # rest)
                  \<and> \<not> Boolean_str (street a) \<and> \<not> Boolean_str (city a)
                  \<and> \<not> Boolean_str (region a))"
    using getCurrentLocation_empty [OF that] by (simp add: newMemory_def)
  from a b c e show ?thesis by blast
qed

text \<open>
  The scenario of the specification with a reverse geocoding that fails: the memory
  \<^verbatim>\<open>Coffee\<close> is created at 40, -73 and its address is the empty string.
\<close>

theorem created_memory_address_is_string_witness:
  "trim (form_title (composing ''Coffee'')) \<noteq> []
   \<and> setItem_ok ((example_device 5)\<lparr>reverseGeocodeAsync := Inl LocationError\<rparr>)
   \<and> getCurrentLocation ((example_device 5)\<lparr>reverseGeocodeAsync := Inl LocationError\<rparr>)
       = ([ConsoleLog ''Error getting address:''],
          Some \<lparr>latitude = 40, longitude = - 73, address = Some []\<rparr>)
   \<and> memories (snd (createMemory ((example_device 5)\<lparr>reverseGeocodeAsync := Inl LocationError\<rparr>)
         (composing ''Coffee''))) = [example_memory ''5'' 5]
   \<and> address (location (example_memory ''5'' 5)) = Some []"
proof -
  let ?d = "(example_device 5)\<lparr>reverseGeocodeAsync := Inl LocationError\<rparr>"
  let ?loc = "\<lparr>latitude = 40, longitude = - 73, address = Some []\<rparr>"
  have t: "trim (form_title (composing ''Coffee'')) = ''Coffee''"
    by code_simp
  have t0: "trim [] = []"
    by code_simp
  have g: "getCurrentLocation ?d = ([ConsoleLog ''Error getting address:''], Some ?loc)"
    by (simp add: getCurrentLocation_def example_device_def)
  have i: "toString 5 = ''5''"
    by code_simp
  have n: "newMemory ?d (composing ''Coffee'') ?loc = example_memory ''5'' 5"
    using t
    by (simp add: newMemory_def t0 i example_memory_def example_device_def composing_def
        initial_def)
  have m: "memories (snd (createMemory ?d (composing ''Coffee''))) = [example_memory ''5'' 5]"
    by code_simp
  from created_memory_address_is_string
         [of ?d "composing ''Coffee''" "[ConsoleLog ''Error getting address:'']" ?loc] t g n m
  show ?thesis by (simp add: example_device_def)
qed

section \<open>The gallery merge\<close>

lemma map_of_Map_set: "map_of (Map_set k v m) = (map_of m)(k \<mapsto> v)"
  by (induction m) (auto simp: fun_eq_iff)

lemma keys_Map_set: "fst ` set (Map_set k v m) = insert k (fst ` set m)"
  by (induction m) auto

lemma distinct_Map_set: "distinct (map fst m) \<Longrightarrow> distinct (map fst (Map_set k v m))"
  by (induction m) (auto simp: keys_Map_set)

lemma photoMap_fill_Cons:
  "photoMap_fill (p # ps) m = photoMap_fill ps (Map_set (id_p p) p m)"
  by (simp add: photoMap_fill_def)

lemma find_append_case:
  "find P (xs @ ys) = (case find P xs of None \<Rightarrow> find P ys | Some x \<Rightarrow> Some x)"
  by (induction xs) auto

text \<open>Looking a key up in the filled map gives the last photo written under it.\<close>

lemma map_of_photoMap_fill:
  "map_of (photoMap_fill ps m) k =
     (case find (\<lambda>q. id_p q = k) (rev ps) of None \<Rightarrow> map_of m k | Some q \<Rightarrow> Some q)"
proof (induction ps arbitrary: m)
  case Nil
  then show ?case by (simp add: photoMap_fill_def)
next
  case (Cons p ps)
  then show ?case
    by (simp add: photoMap_fill_Cons map_of_Map_set find_append_case split: option.splits)
qed

lemma distinct_photoMap_fill:
  "distinct (map fst m) \<Longrightarrow> distinct (map fst (photoMap_fill ps m))"
proof (induction ps arbitrary: m)
  case Nil
  then show ?case by (simp add: photoMap_fill_def)
next
  case (Cons p ps)
  then show ?case by (simp add: photoMap_fill_Cons distinct_Map_set)
qed

lemma keys_photoMap_fill: "fst ` set (photoMap_fill ps m) = fst ` set m \<union> id_p ` set ps"
proof (induction ps arbitrary: m)
  case Nil
  then show ?case by (simp add: photoMap_fill_def)
next
  case (Cons p ps)
  then show ?case by (simp add: photoMap_fill_Cons keys_Map_set)
qed

lemma photoMap_fill_entry:
  assumes "(k, p) \<in> set (photoMap_fill ps [])"
  shows "find (\<lambda>q. id_p q = k) (rev ps) = Some p" and "id_p p = k"
proof -
  have "distinct (map fst (photoMap_fill ps []))"
    by (simp add: distinct_photoMap_fill)
  with assms have "map_of (photoMap_fill ps []) k = Some p"
    by simp
  then show "find (\<lambda>q. id_p q = k) (rev ps) = Some p"
    by (simp add: map_of_photoMap_fill split: option.splits)
  then show "id_p p = k"
    by (auto simp: find_Some_iff)
qed

lemma photoMap_fill_ids:
  "map id_p (Map_values (photoMap_fill ps [])) = map fst (photoMap_fill ps [])"
  by (auto simp: Map_values_def dest: photoMap_fill_entry(2))

lemma mergePhotos_sort_key:
  "mergePhotos album roll =
     sort_key (\<lambda>p. - creationTime p) (Map_values (photoMap_fill (album @ roll) []))"
  by (simp add: mergePhotos_def photoMap_fill_def sortPhotos_sort_key del: Array_sort.simps)

lemma mergePhotos_sorted:
  "sorted_wrt (\<lambda>a b. creationTime b \<le> creationTime a) (mergePhotos album roll)"
proof -
  have "sorted (map (\<lambda>p. - creationTime p) (mergePhotos album roll))"
    by (simp add: mergePhotos_sort_key)
  then show ?thesis by (simp add: sorted_map)
qed

lemma mergePhotos_last:
  assumes "p \<in> set (mergePhotos album roll)"
  shows "find (\<lambda>q. id_p q = id_p p) (rev (album @ roll)) = Some p"
proof -
  from assms obtain k where kp: "(k, p) \<in> set (photoMap_fill (album @ roll) [])"
    by (auto simp: mergePhotos_sort_key Map_values_def)
  from photoMap_fill_entry [OF kp] show ?thesis by simp
qed

lemma mergePhotos_ids: "id_p ` set (mergePhotos album roll) = id_p ` set (album @ roll)"
proof -
  have "id_p ` set (mergePhotos album roll)
      = set (map id_p (Map_values (photoMap_fill (album @ roll) [])))"
    by (simp add: mergePhotos_sort_key)
  also have "\<dots> = set (map fst (photoMap_fill (album @ roll) []))"
    by (simp only: photoMap_fill_ids)
  also have "\<dots> = id_p ` set (album @ roll)"
    by (simp add: keys_photoMap_fill)
  finally show ?thesis .
qed

lemma mergePhotos_distinct: "distinct (map id_p (mergePhotos album roll))"
proof -
  have "distinct (map fst (photoMap_fill (album @ roll) []))"
    by (simp add: distinct_photoMap_fill)
  then have "distinct (map id_p (Map_values (photoMap_fill (album @ roll) [])))"
    by (simp only: photoMap_fill_ids)
  then show ?thesis
    by (simp add: mergePhotos_sort_key distinct_map)
qed

text \<open>
  C4: the album result a (time 5), b (time 3) merged with the roll result b (time 3),
  c (time 8) is c, a, b, and the entry for b is the one of the roll. In general the
  merged list has one entry for each identifier of the two results and no other, each
  entry is the last photo with its identifier in the album result followed by the roll
  result (so the roll wins over the album), and the list is in descending order of
  creation time.
\<close>

theorem gallery_merge_last_write_wins:
  "mergePhotos [example_photo ''a'' 5 ''album/a'', example_photo ''b'' 3 ''album/b'']
               [example_photo ''b'' 3 ''roll/b'', example_photo ''c'' 8 ''roll/c'']
     = [example_photo ''c'' 8 ''roll/c'', example_photo ''a'' 5 ''album/a'',
        example_photo ''b'' 3 ''roll/b'']
   \<and> distinct (map id_p (mergePhotos album roll))
   \<and> id_p ` set (mergePhotos album roll) = id_p ` set (album @ roll)
   \<and> (\<forall>p \<in> set (mergePhotos album roll).
         find (\<lambda>q. id_p q = id_p p) (rev roll @ rev album) = Some p)
   \<and> sorted_wrt (\<lambda>a b. creationTime b \<le> creationTime a) (mergePhotos album roll)"
proof -
  have ex: "mergePhotos [example_photo ''a'' 5 ''album/a'', example_photo ''b'' 3 ''album/b'']
               [example_photo ''b'' 3 ''roll/b'', example_photo ''c'' 8 ''roll/c'']
     = [example_photo ''c'' 8 ''roll/c'', example_photo ''a'' 5 ''album/a'',
        example_photo ''b'' 3 ''roll/b'']"
    by (simp add: mergePhotos_def Map_values_def example_photo_def byCreationTimeDesc_def)
  have "\<forall>p \<in> set (mergePhotos album roll).
          find (\<lambda>q. id_p q = id_p p) (rev roll @ rev album) = Some p"
    using mergePhotos_last by simp
  with ex show ?thesis
    by (simp only: mergePhotos_distinct mergePhotos_ids mergePhotos_sorted simp_thms)
qed

text \<open>
  At the two results of the example, the entry for b is in the merged list, and it is
  the roll's photo that the search from the end finds.
\<close>

theorem gallery_merge_last_write_wins_witness:
  "example_photo ''b'' 3 ''roll/b''
     \<in> set (mergePhotos [example_photo ''a'' 5 ''album/a'', example_photo ''b'' 3 ''album/b'']
                         [example_photo ''b'' 3 ''roll/b'', example_photo ''c'' 8 ''roll/c''])
   \<and> find (\<lambda>q. id_p q = ''b'')
        (rev [example_photo ''b'' 3 ''roll/b'', example_photo ''c'' 8 ''roll/c'']
         @ rev [example_photo ''a'' 5 ''album/a'', example_photo ''b'' 3 ''album/b''])
     = Some (example_photo ''b'' 3 ''roll/b'')
   \<and> map id_p (mergePhotos [example_photo ''a'' 5 ''album/a'', example_photo ''b'' 3 ''album/b'']
                             [example_photo ''b'' 3 ''roll/b'', example_photo ''c'' 8 ''roll/c''])
     = [''c'', ''a'', ''b'']"
  using gallery_merge_last_write_wins
          [of "[example_photo ''a'' 5 ''album/a'', example_photo ''b'' 3 ''album/b'']"
              "[example_photo ''b'' 3 ''roll/b'', example_photo ''c'' 8 ''roll/c'']"]
  by (simp add: example_photo_def)

section \<open>Resolving the URIs of a batch\<close>

lemma getPhotoInfo_Inr:
  "\<exists>p. snd (getPhotoInfo lib a) = Inr p \<and> id_p p = asset_id a
     \<and> (\<forall>e. getAssetInfoAsync lib a = Inl e \<longrightarrow> uri p = asset_uri a)"
  by (auto simp: getPhotoInfo_def split: sum.splits)

lemma Promise_all_fulfilled:
  fixes rs :: "(error + 'a) list"
  shows "\<forall>r \<in> set rs. \<exists>v. r = Inr v \<Longrightarrow> \<exists>vs. Promise_all rs = Inr vs \<and> rs = map Inr vs"
proof (induction rs)
  case Nil
  then show ?case by simp
next
  case (Cons r rs)
  then obtain v and vs :: "'a list"
    where "r = Inr v" "Promise_all rs = Inr vs" "rs = map Inr vs"
    by auto
  then have "Promise_all (r # rs) = Inr (v # vs) \<and> r # rs = map Inr (v # vs)"
    by simp
  then show ?case by (rule exI)
qed

lemma getPhotoInfos_Inr:
  "\<exists>ps. snd (getPhotoInfos lib assets) = Inr ps
     \<and> map (\<lambda>a. snd (getPhotoInfo lib a)) assets = map Inr ps"
proof -
  have "\<forall>r \<in> set (map (\<lambda>a. snd (getPhotoInfo lib a)) assets). \<exists>v. r = Inr v"
    using getPhotoInfo_Inr by fastforce
  from Promise_all_fulfilled [OF this] show ?thesis
    by (simp add: getPhotoInfos_def)
qed

lemma getPhotoInfos_each:
  assumes "snd (getPhotoInfos lib assets) = Inr ps"
  shows "length ps = length assets"
    and "n < length assets \<Longrightarrow> snd (getPhotoInfo lib (assets ! n)) = Inr (ps ! n)"
proof -
  from getPhotoInfos_Inr [of lib assets] assms
  have m: "map (\<lambda>a. snd (getPhotoInfo lib a)) assets = map Inr ps"
    by auto
  then have "length (map (\<lambda>a. snd (getPhotoInfo lib a)) assets)
      = length (map Inr ps :: (error + Photo) list)"
    by simp
  then show l: "length ps = length assets"
    by simp
  assume n: "n < length assets"
  from m have "map (\<lambda>a. snd (getPhotoInfo lib a)) assets ! n
      = (map Inr ps :: (error + Photo) list) ! n"
    by simp
  with n l show "snd (getPhotoInfo lib (assets ! n)) = Inr (ps ! n)"
    by simp
qed

lemma loadPhotos_granted_photos:
  assumes "getAssetsAsync_recent lib = Inr assets"
  shows "asset_id ` set assets \<subseteq> id_p ` set (photos (snd (loadPhotos_granted lib g)))"
proof -
  obtain ps where ps: "snd (getPhotoInfos lib assets) = Inr ps"
    using getPhotoInfos_Inr by blast
  have ids: "asset_id ` set assets \<subseteq> id_p ` set ps"
  proof
    fix i
    assume "i \<in> asset_id ` set assets"
    then obtain n where n: "n < length assets" "i = asset_id (assets ! n)"
      by (auto simp: in_set_conv_nth)
    from getPhotoInfos_each [OF ps] n
    have "snd (getPhotoInfo lib (assets ! n)) = Inr (ps ! n)" "n < length ps"
      by simp_all
    moreover from getPhotoInfo_Inr [of lib "assets ! n"] obtain p
      where "snd (getPhotoInfo lib (assets ! n)) = Inr p" "id_p p = asset_id (assets ! n)"
      by blast
    ultimately have "id_p (ps ! n) = i" "ps ! n \<in> set ps"
      using n by simp_all
    then show "i \<in> id_p ` set ps"
      by blast
  qed
  obtain evs where "getPhotoInfos lib assets = (evs, Inr ps)"
    using ps by (cases "getPhotoInfos lib assets") simp
  then have "photos (snd (loadPhotos_granted lib g)) = mergePhotos (snd (albumPhotos lib)) ps"
    using assms by (simp add: loadPhotos_granted_def Let_def split_beta)
  then have "id_p ` set (photos (snd (loadPhotos_granted lib g)))
      = id_p ` set (snd (albumPhotos lib) @ ps)"
    by (simp only: mergePhotos_ids)
  with ids show ?thesis by auto
qed

lemma batch_ids:
  "map (\<lambda>a. snd (getPhotoInfo lib a)) assets = map Inr ps \<Longrightarrow> map id_p ps = map asset_id assets"
proof (induction assets arbitrary: ps)
  case Nil
  then show ?case by simp
next
  case (Cons a assets)
  then obtain p ps' where ps: "ps = p # ps'"
    by (cases ps) auto
  with Cons.prems have "snd (getPhotoInfo lib a) = Inr p"
    and rest: "map (\<lambda>a. snd (getPhotoInfo lib a)) assets = map Inr ps'"
    by simp_all
  with getPhotoInfo_Inr [of lib a] have "id_p p = asset_id a"
    by auto
  with Cons.IH [OF rest] ps show ?case by simp
qed

lemma albumPhotos_contributes:
  assumes "(getAlbumAsync lib = Inr (Some album) \<and> getAssetsAsync_album lib = Inr albumAssets)
           \<or> (getAlbumAsync lib = Inr None \<and> albumAssets = [])"
  shows "map (\<lambda>a. snd (getPhotoInfo lib a)) albumAssets = map Inr (snd (albumPhotos lib))"
proof -
  obtain ps where ps: "snd (getPhotoInfos lib albumAssets) = Inr ps"
      and m: "map (\<lambda>a. snd (getPhotoInfo lib a)) albumAssets = map Inr ps"
    using getPhotoInfos_Inr by blast
  from ps obtain evs where e: "getPhotoInfos lib albumAssets = (evs, Inr ps)"
    by (cases "getPhotoInfos lib albumAssets") simp
  from assms show ?thesis
  proof
    assume "getAlbumAsync lib = Inr (Some album) \<and> getAssetsAsync_album lib = Inr albumAssets"
    with e have "snd (albumPhotos lib) = ps"
      by (simp add: albumPhotos_def)
    with m show ?thesis by simp
  next
    assume "getAlbumAsync lib = Inr None \<and> albumAssets = []"
    then show ?thesis
      by (simp add: albumPhotos_def)
  qed
qed

lemma loadPhotos_granted_merge:
  assumes "getAssetsAsync_recent lib = Inr assets"
  shows "\<exists>ps. map (\<lambda>a. snd (getPhotoInfo lib a)) assets = map Inr ps
     \<and> photos (snd (loadPhotos_granted lib g)) = mergePhotos (snd (albumPhotos lib)) ps"
proof -
  obtain ps where ps: "snd (getPhotoInfos lib assets) = Inr ps"
      and m: "map (\<lambda>a. snd (getPhotoInfo lib a)) assets = map Inr ps"
    using getPhotoInfos_Inr by blast
  from ps obtain evs where "getPhotoInfos lib assets = (evs, Inr ps)"
    by (cases "getPhotoInfos lib assets") simp
  with assms have "photos (snd (loadPhotos_granted lib g)) = mergePhotos (snd (albumPhotos lib)) ps"
    by (simp add: loadPhotos_granted_def Let_def split_beta)
  with m show ?thesis by blast
qed

lemma published_from_both_queries:
  assumes album: "(getAlbumAsync lib = Inr (Some album) \<and> getAssetsAsync_album lib = Inr albumAssets)
           \<or> (getAlbumAsync lib = Inr None \<and> albumAssets = [])"
    and roll: "getAssetsAsync_recent lib = Inr assets"
  shows "id_p ` set (photos (snd (loadPhotos_granted lib g))) = asset_id ` set (albumAssets @ assets)"
    and "p \<in> set (photos (snd (loadPhotos_granted lib g))) \<Longrightarrow>
           \<exists>a \<in> set (albumAssets @ assets). snd (getPhotoInfo lib a) = Inr p"
proof -
  from loadPhotos_granted_merge [OF roll, of g] obtain psR
    where mR: "map (\<lambda>a. snd (getPhotoInfo lib a)) assets = map Inr psR"
      and ph: "photos (snd (loadPhotos_granted lib g)) = mergePhotos (snd (albumPhotos lib)) psR"
    by blast
  from albumPhotos_contributes [OF album]
  have mA: "map (\<lambda>a. snd (getPhotoInfo lib a)) albumAssets = map Inr (snd (albumPhotos lib))" .
  from mA mR have m: "map (\<lambda>a. snd (getPhotoInfo lib a)) (albumAssets @ assets)
      = map Inr (snd (albumPhotos lib) @ psR)"
    by simp
  from batch_ids [OF m] have "id_p ` set (snd (albumPhotos lib) @ psR) = asset_id ` set (albumAssets @ assets)"
    by (metis set_map)
  with ph show "id_p ` set (photos (snd (loadPhotos_granted lib g))) = asset_id ` set (albumAssets @ assets)"
    by (simp only: mergePhotos_ids)
  assume "p \<in> set (photos (snd (loadPhotos_granted lib g)))"
  with ph have "find (\<lambda>q. id_p q = id_p p) (rev (snd (albumPhotos lib) @ psR)) = Some p"
    by (simp only: mergePhotos_last)
  then have "p \<in> set (rev (snd (albumPhotos lib) @ psR))"
    by (metis find_Some_iff nth_mem)
  then have "p \<in> set (snd (albumPhotos lib) @ psR)"
    by auto
  then have "Inr p \<in> set (map (\<lambda>a. snd (getPhotoInfo lib a)) (albumAssets @ assets))"
    by (simp only: m) auto
  then show "\<exists>a \<in> set (albumAssets @ assets). snd (getPhotoInfo lib a) = Inr p"
    by auto
qed

text \<open>
  C9: for every batch of assets and whatever the media library answers for each of them,
  resolving the batch is fulfilled with one photo per asset, in order; each photo is the
  one \<^verbatim>\<open>getPhotoInfo\<close> builds for its own asset and carries that asset's identifier, and
  where the asset information could not be resolved the photo has the asset's own URI.
  When the batch is the result of the roll query, every one of its identifiers is among
  the photos that \<^verbatim>\<open>loadPhotos\<close> publishes. When the album is found and queried, or is
  not there, and the roll query succeeds, the published photos have exactly the
  identifiers of the assets of the two results, each published photo is the one
  \<^verbatim>\<open>getPhotoInfo\<close> builds for an asset of the two results, and an asset that is the only
  one with its identifier is published as its own photo, with its own URI when its
  asset information could not be resolved.
\<close>

theorem photo_info_failure_falls_back:
  "\<exists>ps. snd (getPhotoInfos lib assets) = Inr ps \<and> length ps = length assets
     \<and> (\<forall>n < length assets.
           snd (getPhotoInfo lib (assets ! n)) = Inr (ps ! n)
           \<and> id_p (ps ! n) = asset_id (assets ! n)
           \<and> (\<forall>e. getAssetInfoAsync lib (assets ! n) = Inl e \<longrightarrow>
                  uri (ps ! n) = asset_uri (assets ! n)))
     \<and> (getAssetsAsync_recent lib = Inr assets \<longrightarrow>
           asset_id ` set assets \<subseteq> id_p ` set (photos (snd (loadPhotos_granted lib g))))
     \<and> (((getAlbumAsync lib = Inr (Some album) \<and> getAssetsAsync_album lib = Inr albumAssets)
           \<or> (getAlbumAsync lib = Inr None \<and> albumAssets = []))
          \<and> getAssetsAsync_recent lib = Inr assets \<longrightarrow>
           id_p ` set (photos (snd (loadPhotos_granted lib g)))
             = asset_id ` set (albumAssets @ assets)
           \<and> (\<forall>p \<in> set (photos (snd (loadPhotos_granted lib g))).
                 \<exists>a \<in> set (albumAssets @ assets). snd (getPhotoInfo lib a) = Inr p)
           \<and> (\<forall>a \<in> set (albumAssets @ assets).
                 (\<forall>a' \<in> set (albumAssets @ assets). asset_id a' = asset_id a \<longrightarrow> a' = a) \<longrightarrow>
                 (\<exists>p \<in> set (photos (snd (loadPhotos_granted lib g))).
                    snd (getPhotoInfo lib a) = Inr p \<and> id_p p = asset_id a
                    \<and> (\<forall>e. getAssetInfoAsync lib a = Inl e \<longrightarrow> uri p = asset_uri a))))"
proof -
  obtain ps where ps: "snd (getPhotoInfos lib assets) = Inr ps"
    using getPhotoInfos_Inr by blast
  have each: "snd (getPhotoInfo lib (assets ! n)) = Inr (ps ! n)
           \<and> id_p (ps ! n) = asset_id (assets ! n)
           \<and> (\<forall>e. getAssetInfoAsync lib (assets ! n) = Inl e \<longrightarrow>
                  uri (ps ! n) = asset_uri (assets ! n))"
    if "n < length assets" for n
  proof -
    from getPhotoInfos_each(2) [OF ps that]
    have "snd (getPhotoInfo lib (assets ! n)) = Inr (ps ! n)" .
    with getPhotoInfo_Inr [of lib "assets ! n"] show ?thesis by auto
  qed
  have both: "id_p ` set (photos (snd (loadPhotos_granted lib g)))
             = asset_id ` set (albumAssets @ assets)
           \<and> (\<forall>p \<in> set (photos (snd (loadPhotos_granted lib g))).
                 \<exists>a \<in> set (albumAssets @ assets). snd (getPhotoInfo lib a) = Inr p)
           \<and> (\<forall>a \<in> set (albumAssets @ assets).
                 (\<forall>a' \<in> set (albumAssets @ assets). asset_id a' = asset_id a \<longrightarrow> a' = a) \<longrightarrow>
                 (\<exists>p \<in> set (photos (snd (loadPhotos_granted lib g))).
                    snd (getPhotoInfo lib a) = Inr p \<and> id_p p = asset_id a
                    \<and> (\<forall>e. getAssetInfoAsync lib a = Inl e \<longrightarrow> uri p = asset_uri a)))"
    if album: "(getAlbumAsync lib = Inr (Some album) \<and> getAssetsAsync_album lib = Inr albumAssets)
           \<or> (getAlbumAsync lib = Inr None \<and> albumAssets = [])"
      and roll: "getAssetsAsync_recent lib = Inr assets"
  proof -
    note ids = published_from_both_queries(1) [OF album roll, of g]
    note prov = published_from_both_queries(2) [OF album roll, of _ g]
    have own: "\<exists>p \<in> set (photos (snd (loadPhotos_granted lib g))).
                    snd (getPhotoInfo lib a) = Inr p \<and> id_p p = asset_id a
                    \<and> (\<forall>e. getAssetInfoAsync lib a = Inl e \<longrightarrow> uri p = asset_uri a)"
      if a: "a \<in> set (albumAssets @ assets)"
        and uniq: "\<forall>a' \<in> set (albumAssets @ assets). asset_id a' = asset_id a \<longrightarrow> a' = a"
      for a
    proof -
      from a ids obtain p where p: "p \<in> set (photos (snd (loadPhotos_granted lib g)))"
          and pid: "id_p p = asset_id a"
        by (metis (no_types, lifting) image_iff)
      from prov [OF p] obtain a' where a': "a' \<in> set (albumAssets @ assets)"
          and pa': "snd (getPhotoInfo lib a') = Inr p"
        by blast
      from getPhotoInfo_Inr [of lib a'] pa' have "id_p p = asset_id a'"
        by auto
      with pid uniq a' have "a' = a"
        by auto
      with pa' have "snd (getPhotoInfo lib a) = Inr p"
        by simp
      with getPhotoInfo_Inr [of lib a] p pid show ?thesis
        by auto
    qed
    from ids prov own show ?thesis by blast
  qed
  from ps getPhotoInfos_each(1) [OF ps] each loadPhotos_granted_photos [of lib assets g] both
  show ?thesis by blast
qed

text \<open>
  A roll of two assets where the first one cannot be resolved: both photos come out, the
  first with its own URI, the second with the resolved one. With an album that holds
  \<^verbatim>\<open>w\<close> and \<^verbatim>\<open>x\<close>, neither of which can be resolved, the album's \<^verbatim>\<open>w\<close> is published with its
  own URI next to the photos of the roll.
\<close>

theorem photo_info_failure_falls_back_witness:
  "getAssetsAsync_recent example_medialib = Inr [example_asset ''x'' 1, example_asset ''y'' 2]
   \<and> getAssetInfoAsync example_medialib (example_asset ''x'' 1) = Inl MediaLibraryError
   \<and> map uri (photos (snd (loadPhotos_granted example_medialib empty_gallery)))
       = [''file:///y'', ''ph://x'']
   \<and> (\<exists>ps. snd (getPhotoInfos example_medialib [example_asset ''x'' 1, example_asset ''y'' 2])
             = Inr ps
          \<and> length ps = 2 \<and> uri (ps ! 0) = ''ph://x'' \<and> uri (ps ! 1) = ''file:///y'')
   \<and> getAlbumAsync example_medialib_album = Inr (Some ''Camera App Photos'')
   \<and> getAssetsAsync_album example_medialib_album
       = Inr [example_asset ''w'' 3, example_asset ''x'' 1]
   \<and> getAssetsAsync_recent example_medialib_album
       = Inr [example_asset ''x'' 1, example_asset ''y'' 2]
   \<and> getAssetInfoAsync example_medialib_album (example_asset ''w'' 3) = Inl MediaLibraryError
   \<and> map id_p (photos (snd (loadPhotos_granted example_medialib_album empty_gallery)))
       = [''w'', ''y'', ''x'']
   \<and> map uri (photos (snd (loadPhotos_granted example_medialib_album empty_gallery)))
       = [''ph://w'', ''file:///y'', ''ph://x'']
   \<and> id_p ` set (photos (snd (loadPhotos_granted example_medialib_album empty_gallery)))
       = asset_id ` set ([example_asset ''w'' 3, example_asset ''x'' 1]
                         @ [example_asset ''x'' 1, example_asset ''y'' 2])"
proof -
  have a: "getAssetsAsync_recent example_medialib
      = Inr [example_asset ''x'' 1, example_asset ''y'' 2]"
    by (simp add: example_medialib_def)
  have b: "getAssetInfoAsync example_medialib (example_asset ''x'' 1) = Inl MediaLibraryError"
    by (simp add: example_medialib_def example_asset_def)
  have c: "map uri (photos (snd (loadPhotos_granted example_medialib empty_gallery)))
      = [''file:///y'', ''ph://x'']"
    by code_simp
  have d: "snd (getPhotoInfos example_medialib [example_asset ''x'' 1, example_asset ''y'' 2])
      = Inr [\<lparr>id_p = ''x'', uri = ''ph://x'', creationTime = 1, filename = ''x.jpg'',
               localUri = None\<rparr>,
             \<lparr>id_p = ''y'', uri = ''file:///y'', creationTime = 2, filename = ''y.jpg'',
               localUri = Some ''file:///y''\<rparr>]"
    by (simp add: getPhotoInfos_def getPhotoInfo_def example_medialib_def example_asset_def)
  from photo_info_failure_falls_back
         [where lib = example_medialib
            and assets = "[example_asset ''x'' 1, example_asset ''y'' 2]"
            and g = empty_gallery and album = "[]" and albumAssets = "[]"]
  obtain ps
    where ps: "snd (getPhotoInfos example_medialib
                [example_asset ''x'' 1, example_asset ''y'' 2]) = Inr ps"
      and "length ps = length [example_asset ''x'' 1, example_asset ''y'' 2]"
    by (elim exE conjE) (rule that)
  with d have e: "length ps = 2 \<and> uri (ps ! 0) = ''ph://x'' \<and> uri (ps ! 1) = ''file:///y''"
    by auto
  have f: "getAlbumAsync example_medialib_album = Inr (Some ''Camera App Photos'')"
    and g: "getAssetsAsync_album example_medialib_album
      = Inr [example_asset ''w'' 3, example_asset ''x'' 1]"
    and h: "getAssetsAsync_recent example_medialib_album
      = Inr [example_asset ''x'' 1, example_asset ''y'' 2]"
    and i: "getAssetInfoAsync example_medialib_album (example_asset ''w'' 3)
      = Inl MediaLibraryError"
    by (simp_all add: example_medialib_album_def example_asset_def)
  have j: "map id_p (photos (snd (loadPhotos_granted example_medialib_album empty_gallery)))
      = [''w'', ''y'', ''x'']"
    by code_simp
  have k: "map uri (photos (snd (loadPhotos_granted example_medialib_album empty_gallery)))
      = [''ph://w'', ''file:///y'', ''ph://x'']"
    by code_simp
  let ?L = example_medialib_album
  let ?A = "[example_asset ''w'' 3, example_asset ''x'' 1]"
  let ?R = "[example_asset ''x'' 1, example_asset ''y'' 2]"
  let ?P = "photos (snd (loadPhotos_granted ?L empty_gallery))"
  from photo_info_failure_falls_back
         [where lib = ?L and assets = ?R and g = empty_gallery
            and album = "''Camera App Photos''" and albumAssets = ?A]
  have imp: "((getAlbumAsync ?L = Inr (Some ''Camera App Photos'') \<and> getAssetsAsync_album ?L = Inr ?A)
           \<or> (getAlbumAsync ?L = Inr None \<and> ?A = []))
          \<and> getAssetsAsync_recent ?L = Inr ?R \<longrightarrow>
           id_p ` set ?P = asset_id ` set (?A @ ?R)
           \<and> (\<forall>p \<in> set ?P. \<exists>a \<in> set (?A @ ?R). snd (getPhotoInfo ?L a) = Inr p)
           \<and> (\<forall>a \<in> set (?A @ ?R).
                 (\<forall>a' \<in> set (?A @ ?R). asset_id a' = asset_id a \<longrightarrow> a' = a) \<longrightarrow>
                 (\<exists>p \<in> set ?P.
                    snd (getPhotoInfo ?L a) = Inr p \<and> id_p p = asset_id a
                    \<and> (\<forall>e. getAssetInfoAsync ?L a = Inl e \<longrightarrow> uri p = asset_uri a)))"
    by (elim exE conjE)
  have hyp: "((getAlbumAsync ?L = Inr (Some ''Camera App Photos'') \<and> getAssetsAsync_album ?L = Inr ?A)
           \<or> (getAlbumAsync ?L = Inr None \<and> ?A = []))
          \<and> getAssetsAsync_recent ?L = Inr ?R"
    using f g h by (intro conjI disjI1)
  from mp [OF imp hyp] have l: "id_p ` set ?P = asset_id ` set (?A @ ?R)"
    by (rule conjunct1)
  from ps e have m: "\<exists>ps. snd (getPhotoInfos example_medialib
                  [example_asset ''x'' 1, example_asset ''y'' 2]) = Inr ps
          \<and> length ps = 2 \<and> uri (ps ! 0) = ''ph://x'' \<and> uri (ps ! 1) = ''file:///y''"
    by (intro exI [of _ ps] conjI) simp_all
  from a b c m f g h i j k l show ?thesis
    by (intro conjI)
qed

end
